theory Spec2Isabelle
  imports Complex_Main
begin

section \<open>A model of the numpy arrays that \<open>seagrass/prepare.py\<close> works on\<close>

text \<open>
  The three functions of \<open>prepare.py\<close> are pure functions of numpy arrays. An array is
  modelled as numpy stores it: its shape and its elements in C (row-major) order. Every
  numpy operation the source calls is a function on this record; an operation that can
  raise returns \<open>error + _\<close>, with \<open>Inl\<close> the exception. The values of a band stack are
  of an arbitrary element type, since they are only moved and smoothed; the values of a
  ground truth are the numpy scalars defined below, on which \<open>abs\<close> and \<open>!=\<close> act.
\<close>

datatype error = IndexError | ValueError | TypeError

record 'a ndarray =
  shape :: "nat list"
  flat :: "'a list"

definition wf_ndarray :: "'a ndarray \<Rightarrow> bool" where
  "wf_ndarray a \<longleftrightarrow> length (flat a) = prod_list (shape a)"

text \<open>\<open>len(a)\<close>: the first dimension; a zero-dimensional array has no length.\<close>

definition len_nd :: "'a ndarray \<Rightarrow> error + nat" where
  "len_nd a = (case shape a of [] \<Rightarrow> Inl TypeError | n # sh \<Rightarrow> Inr n)"

text \<open>\<open>list(np.arange(n))\<close>.\<close>

definition arange :: "nat \<Rightarrow> int list" where
  "arange n = map int [0..<n]"

text \<open>
  \<open>a[i]\<close> for an integer \<open>i\<close>: the \<open>i\<close>-th sub-array along the first axis. A negative
  index counts from the end; an index outside \<open>-n .. n-1\<close> raises IndexError, and so does
  indexing a zero-dimensional array.
\<close>

definition getitem :: "'a ndarray \<Rightarrow> int \<Rightarrow> error + 'a ndarray" where
  "getitem a i =
     (case shape a of
        [] \<Rightarrow> Inl IndexError
      | n # sh \<Rightarrow>
          (let j = (if i < 0 then i + int n else i)
           in if 0 \<le> j \<and> j < int n
              then Inr \<lparr>shape = sh,
                        flat = take (prod_list sh) (drop (nat j * prod_list sh) (flat a))\<rparr>
              else Inl IndexError))"

text \<open>\<open>a.ravel()\<close>: the same elements, in row-major order, as a one-dimensional array.\<close>

definition ravel :: "'a ndarray \<Rightarrow> 'a ndarray" where
  "ravel a = \<lparr>shape = [prod_list (shape a)], flat = flat a\<rparr>"

text \<open>
  \<open>np.vstack(arrs)\<close>: every operand is made at least two-dimensional, then the operands
  are concatenated along the first axis. An empty sequence raises ValueError (there is
  nothing to concatenate), and so do operands whose remaining dimensions differ.
\<close>

definition atleast_2d :: "'a ndarray \<Rightarrow> 'a ndarray" where
  "atleast_2d a =
     (case shape a of
        [] \<Rightarrow> \<lparr>shape = [1, 1], flat = flat a\<rparr>
      | [m] \<Rightarrow> \<lparr>shape = [1, m], flat = flat a\<rparr>
      | _ \<Rightarrow> a)"

definition vstack :: "'a ndarray list \<Rightarrow> error + 'a ndarray" where
  "vstack arrs =
     (case map atleast_2d arrs of
        [] \<Rightarrow> Inl ValueError
      | a # as \<Rightarrow>
          if list_all (\<lambda>b. tl (shape b) = tl (shape a)) as
          then Inr \<lparr>shape = sum_list (map (\<lambda>b. hd (shape b)) (a # as)) # tl (shape a),
                    flat = concat (map flat (a # as))\<rparr>
          else Inl ValueError)"

text \<open>
  \<open>a.T\<close>: the axes reversed. For a first axis of length \<open>n\<close> the transposed buffer
  interleaves the transposed buffers of the \<open>n\<close> sub-arrays.
\<close>

fun T_flat :: "nat list \<Rightarrow> 'a list \<Rightarrow> 'a list" where
  "T_flat [] xs = xs"
| "T_flat (n # sh) xs =
     concat (transpose
       (map (\<lambda>j. T_flat sh (take (prod_list sh) (drop (j * prod_list sh) xs))) [0..<n]))"

definition T :: "'a ndarray \<Rightarrow> 'a ndarray" where
  "T a = \<lparr>shape = rev (shape a), flat = T_flat (shape a) (flat a)\<rparr>"

text \<open>
  The values of a ground-truth raster. Its dtype is not fixed by the source, so a value is
  either a two's-complement integer of a given bit width (\<open>np.int16\<close> is width 16) or a
  floating-point number, which is a finite number or NaN. \<open>abs\<close> of a fixed-width
  integer wraps around: the most negative value is its own absolute value. Two values
  are compared as numbers (numpy converts an integer that meets a float to float64,
  which is exact below \<open>2^53\<close>). NaN differs from every value, itself included, its
  \<open>abs\<close> is NaN, and \<open>NaN >= 0\<close> is false. Unsigned integers and infinities, whose \<open>abs\<close>
  is never negative, are left out.
\<close>

datatype scalar = SInt nat int | Float real | NaN



definition wrap_signed :: "nat \<Rightarrow> int \<Rightarrow> int" where
  "wrap_signed w v = (v + 2 ^ (w - 1)) mod 2 ^ w - 2 ^ (w - 1)"

fun np_abs :: "scalar \<Rightarrow> scalar" where
  "np_abs (SInt w v) = SInt w (wrap_signed w (abs v))"
| "np_abs (Float x) = Float (abs x)"
| "np_abs NaN = NaN"

fun value_of :: "scalar \<Rightarrow> real option" where
  "value_of (SInt w v) = Some (real_of_int v)"
| "value_of (Float x) = Some x"
| "value_of NaN = None"

definition np_ne :: "scalar \<Rightarrow> scalar \<Rightarrow> bool" where
  "np_ne a b =
     (case value_of a of
        None \<Rightarrow> True
      | Some x \<Rightarrow> (case value_of b of None \<Rightarrow> True | Some y \<Rightarrow> x \<noteq> y))"


text \<open>
  \<open>a != v\<close> for a scalar \<open>v\<close> (element-wise, same shape) and \<open>abs(a)\<close> (element-wise).
\<close>

definition ne_scalar :: "scalar ndarray \<Rightarrow> scalar \<Rightarrow> bool ndarray" where
  "ne_scalar a v = \<lparr>shape = shape a, flat = map (\<lambda>x. np_ne x v) (flat a)\<rparr>"

definition abs_nd :: "scalar ndarray \<Rightarrow> scalar ndarray" where
  "abs_nd a = \<lparr>shape = shape a, flat = map np_abs (flat a)\<rparr>"

text \<open>
  \<open>a[m]\<close> for a boolean array \<open>m\<close>. Every dimension of \<open>m\<close> is compared with the
  dimension of \<open>a\<close> at its position and must be equal to it, else IndexError; numpy
  leaves out the comparison for a dimension of \<open>m\<close> that is 0, and the selection is then
  empty. The result holds, in row-major order of \<open>m\<close>, the sub-arrays of \<open>a\<close> at the
  positions where \<open>m\<close> is true.
\<close>

definition getitem_mask :: "'a ndarray \<Rightarrow> bool ndarray \<Rightarrow> error + 'a ndarray" where
  "getitem_mask a m =
     (let k = length (shape m); sub = prod_list (drop k (shape a))
      in if k \<le> length (shape a)
            \<and> list_all2 (\<lambda>d n. d = 0 \<or> d = n) (shape m) (take k (shape a))
         then Inr \<lparr>shape = length (filter (\<lambda>b. b) (flat m)) # drop k (shape a),
                   flat = concat (map (\<lambda>i. take sub (drop (i * sub) (flat a)))
                                      (filter (\<lambda>i. flat m ! i) [0..<length (flat m)]))\<rparr>
         else Inl IndexError)"

text \<open>\<open>a.reshape(-1, 1)\<close>: all elements as one column; \<open>a.copy()\<close> is the identity here.\<close>

definition reshape_column :: "'a ndarray \<Rightarrow> 'a ndarray" where
  "reshape_column a = \<lparr>shape = [prod_list (shape a), 1], flat = flat a\<rparr>"

text \<open>
  A list comprehension whose body can raise: the elements are evaluated from left to
  right and the first exception ends the comprehension.
\<close>

fun traverse :: "('a \<Rightarrow> error + 'b) \<Rightarrow> 'a list \<Rightarrow> error + 'b list" where
  "traverse f [] = Inr []"
| "traverse f (x # xs) =
     (case f x of
        Inl e \<Rightarrow> Inl e
      | Inr y \<Rightarrow> (case traverse f xs of Inl e \<Rightarrow> Inl e | Inr ys \<Rightarrow> Inr (y # ys)))"

section \<open>The functions of \<open>prepare.py\<close>\<close>

text \<open>
  \<open>scipy.ndimage.gaussian_filter\<close> is a library function outside the repository; it is a
  parameter \<open>gaussian_filter\<close> of the model, applied to a plane and the standard
  deviation.
\<close>

definition default_bands :: "'a ndarray \<Rightarrow> int list option \<Rightarrow> error + int list" where
  "default_bands data bands =
     (case bands of
        None \<Rightarrow> (case len_nd data of Inl e \<Rightarrow> Inl e | Inr n \<Rightarrow> Inr (arange n))
      | Some bs \<Rightarrow> Inr bs)"

definition return_features ::
  "('a ndarray \<Rightarrow> real \<Rightarrow> 'a ndarray) \<Rightarrow> 'a ndarray \<Rightarrow> int list option \<Rightarrow> bool
     \<Rightarrow> error + 'a ndarray" where
  "return_features gaussian_filter data bands blurring =
     (case default_bands data bands of
        Inl e \<Rightarrow> Inl e
      | Inr bs \<Rightarrow>
          (case traverse (\<lambda>band. case getitem data band of
                                   Inl e \<Rightarrow> Inl e
                                 | Inr plane \<Rightarrow> Inr (ravel plane)) bs of
             Inl e \<Rightarrow> Inl e
           | Inr bands_1D \<Rightarrow>
               if blurring
               then (case traverse (\<lambda>band. case getitem data band of
                                             Inl e \<Rightarrow> Inl e
                                           | Inr plane \<Rightarrow>
                                               Inr (ravel (gaussian_filter plane 2))) bs of
                       Inl e \<Rightarrow> Inl e
                     | Inr blurred_1D \<Rightarrow>
                         (case vstack (bands_1D @ blurred_1D) of
                            Inl e \<Rightarrow> Inl e
                          | Inr stacked \<Rightarrow> Inr (T stacked)))
               else (case vstack bands_1D of
                       Inl e \<Rightarrow> Inl e
                     | Inr stacked \<Rightarrow> Inr (T stacked))))"

definition create_training_data ::
  "('a ndarray \<Rightarrow> real \<Rightarrow> 'a ndarray) \<Rightarrow> 'a ndarray \<Rightarrow> scalar ndarray \<Rightarrow> scalar
     \<Rightarrow> int list option \<Rightarrow> error + ('a ndarray \<times> scalar ndarray)" where
  "create_training_data gaussian_filter s2_data ground_truth_data no_data_value s2_bands =
     (case default_bands s2_data s2_bands of
        Inl e \<Rightarrow> Inl e
      | Inr bs \<Rightarrow>
          (let mask = ne_scalar ground_truth_data no_data_value
           in case return_features gaussian_filter s2_data (Some bs) False of
                Inl e \<Rightarrow> Inl e
              | Inr features \<Rightarrow>
                  (case getitem_mask features (ravel mask) of
                     Inl e \<Rightarrow> Inl e
                   | Inr X \<Rightarrow>
                       (case getitem_mask (abs_nd ground_truth_data) mask of
                          Inl e \<Rightarrow> Inl e
                        | Inr valid \<Rightarrow> Inr (X, reshape_column valid)))))"

definition create_prediction_features ::
  "('a ndarray \<Rightarrow> real \<Rightarrow> 'a ndarray) \<Rightarrow> 'a ndarray \<Rightarrow> int list option
     \<Rightarrow> error + 'a ndarray" where
  "create_prediction_features gaussian_filter s2_data s2_bands =
     (case default_bands s2_data s2_bands of
        Inl e \<Rightarrow> Inl e
      | Inr bs \<Rightarrow> return_features gaussian_filter s2_data (Some bs) False)"

section \<open>Reading a two-dimensional array, and concrete inputs\<close>

text \<open>
  \<open>a[:, j]\<close> and \<open>a.tolist()\<close> of a two-dimensional array: its \<open>j\<close>-th column and its list
  of rows. The claims about feature matrices are stated through them.
\<close>

definition column :: "'a ndarray \<Rightarrow> nat \<Rightarrow> 'a list" where
  "column a j =
     (case shape a of
        [n, m] \<Rightarrow> map (\<lambda>i. flat a ! (i * m + j)) [0..<n]
      | _ \<Rightarrow> [])"

definition rows_of :: "'a ndarray \<Rightarrow> 'a list list" where
  "rows_of a =
     (case shape a of
        [n, m] \<Rightarrow> map (\<lambda>i. take m (drop (i * m) (flat a))) [0..<n]
      | _ \<Rightarrow> [])"

text \<open>
  The band stack of the spec's scenario, two bands of 2 x 2 pixels, and a stand-in for
  the smoothing primitive in concrete inputs: it keeps the shape of the plane, as
  \<open>gaussian_filter\<close> does, and changes every value, so that a smoothed column is told
  apart from an unsmoothed one.
\<close>

definition scenario_stack :: "int ndarray" where
  "scenario_stack = \<lparr>shape = [2, 2, 2], flat = [1, 2, 3, 4, 5, 6, 7, 8]\<rparr>"

definition example_filter :: "int ndarray \<Rightarrow> real \<Rightarrow> int ndarray" where
  "example_filter plane sigma = \<lparr>shape = shape plane, flat = map (\<lambda>v. v + 100) (flat plane)\<rparr>"


text \<open>
  Two auxiliary notions for the proofs: the sub-array that \<open>a[i]\<close> reads when \<open>i\<close> is in
  range, and the row-major buffer of the matrix whose columns are the given lists of
  length \<open>p\<close>.
\<close>

definition sub_array :: "'a ndarray \<Rightarrow> int \<Rightarrow> 'a ndarray" where
  "sub_array a i =
     \<lparr>shape = tl (shape a),
      flat = take (prod_list (tl (shape a)))
               (drop (nat (if i < 0 then i + int (hd (shape a)) else i) * prod_list (tl (shape a)))
                  (flat a))\<rparr>"

definition interleave :: "nat \<Rightarrow> 'a list list \<Rightarrow> 'a list" where
  "interleave p cols = concat (map (\<lambda>i. map (\<lambda>col. col ! i) cols) [0..<p])"

section \<open>Facts about the array operations\<close>

lemma getitem_ok:
  assumes "shape a = n # sh" "- int n \<le> i" "i < int n"
  shows "getitem a i = Inr \<lparr>shape = sh,
            flat = take (prod_list sh)
                     (drop (nat (if i < 0 then i + int n else i) * prod_list sh) (flat a))\<rparr>"
  using assms by (simp add: getitem_def Let_def)

lemma getitem_err:
  assumes "shape a = n # sh" "i < - int n \<or> int n \<le> i"
  shows "getitem a i = Inl IndexError"
  using assms by (auto simp add: getitem_def Let_def)

lemma getitem_only_IndexError: "getitem a i = Inl e \<Longrightarrow> e = IndexError"
  by (auto simp add: getitem_def Let_def split: list.splits if_splits)

lemma traverse_Inl: "traverse f xs = Inl e \<Longrightarrow> \<exists>x\<in>set xs. f x = Inl e"
  by (induction xs) (auto split: sum.splits)

lemma traverse_Inr: "traverse f xs = Inr ys \<Longrightarrow> x \<in> set xs \<Longrightarrow> \<exists>y. f x = Inr y"
  by (induction xs arbitrary: ys) (auto split: sum.splits)

lemma traverse_ok:
  "(\<And>x. x \<in> set xs \<Longrightarrow> f x = Inr (g x)) \<Longrightarrow> traverse f xs = Inr (map g xs)"
  by (induction xs) auto

lemma bands_1D_IndexError:
  assumes "shape data = n # sh" "b \<in> set bs" "int n \<le> b"
  shows "traverse (\<lambda>band. case getitem data band of
                             Inl e \<Rightarrow> Inl e
                           | Inr plane \<Rightarrow> Inr (ravel plane)) bs = Inl IndexError"
proof (cases "traverse (\<lambda>band. case getitem data band of
                                  Inl e \<Rightarrow> Inl e
                                | Inr plane \<Rightarrow> Inr (ravel plane)) bs")
  case (Inl e)
  then obtain x where "(case getitem data x of Inl e \<Rightarrow> Inl e
                        | Inr plane \<Rightarrow> Inr (ravel plane)) = (Inl e :: error + 'a ndarray)"
    using traverse_Inl by fastforce
  then have "getitem data x = Inl e"
    by (cases "getitem data x") simp_all
  then have "e = IndexError"
    by (rule getitem_only_IndexError)
  then show ?thesis
    using Inl by simp
next
  case (Inr ys)
  then obtain y where "(case getitem data b of Inl e \<Rightarrow> Inl e
                        | Inr plane \<Rightarrow> Inr (ravel plane)) = (Inr y :: error + 'a ndarray)"
    using traverse_Inr assms(2) by fastforce
  moreover have "getitem data b = Inl IndexError"
    using assms(1,3) by (simp add: getitem_err)
  ultimately show ?thesis
    by simp
qed

lemma chunk_concat:
  assumes "\<And>xs. xs \<in> set xss \<Longrightarrow> length xs = m" "j < length xss"
  shows "take m (drop (j * m) (concat xss)) = xss ! j"
  using assms
proof (induction xss arbitrary: j)
  case Nil then show ?case by simp
next
  case (Cons a xss)
  have la: "length a = m" using Cons.prems(1) by simp
  show ?case
  proof (cases j)
    case 0 then show ?thesis using la by simp
  next
    case (Suc k)
    then have "take m (drop (k * m) (concat xss)) = xss ! k" using Cons by auto
    then show ?thesis using Suc la by (simp add: add.commute)
  qed
qed

lemma nth_concat_const:
  assumes "\<And>xs. xs \<in> set xss \<Longrightarrow> length xs = m" "i < length xss" "j < m"
  shows "concat xss ! (i * m + j) = xss ! i ! j"
proof -
  have l: "length (xss ! i) = m" using assms(1,2) by simp
  have "xss ! i ! j = take m (drop (i * m) (concat xss)) ! j"
    using chunk_concat [of xss m i] assms(1,2) by simp
  also have "\<dots> = drop (i * m) (concat xss) ! j"
    using assms(3) by simp
  also have "\<dots> = concat xss ! (i * m + j)"
  proof -
    have "length (take m (drop (i * m) (concat xss))) = m"
      using chunk_concat [of xss m i] assms(1,2) l by simp
    then have "i * m + j < length (concat xss)" using assms(3) by (cases "m = 0") auto
    then show ?thesis by simp
  qed
  finally show ?thesis by simp
qed

lemma transpose_singletons: "concat (transpose (map (\<lambda>y. [y]) ys)) = ys"
proof (cases ys)
  case Nil then show ?thesis by simp
next
  case (Cons a as)
  let ?xs = "map (\<lambda>y. [y]) ys"
  have r: "transpose ?xs = map (\<lambda>i. map (\<lambda>j. ?xs ! j ! i) [0..<length ?xs]) [0..<1]"
  proof (rule transpose_rectangle)
    show "?xs = [] \<Longrightarrow> 1 = 0" using Cons by simp
    show "\<And>i. i < length ?xs \<Longrightarrow> length (?xs ! i) = 1" by simp
  qed
  have "map (\<lambda>j. ?xs ! j ! 0) [0..<length ?xs] = ys"
    by (rule nth_equalityI) simp_all
  then show ?thesis using r by simp
qed

lemma T_flat_1d: "length ys = m \<Longrightarrow> T_flat [m] ys = ys"
proof -
  assume l: "length ys = m"
  have "map (\<lambda>j. T_flat [] (take (prod_list []) (drop (j * prod_list []) ys))) [0..<m]
        = map (\<lambda>y. [y]) ys"
  proof (rule nth_equalityI)
    show "length (map (\<lambda>j. T_flat [] (take (prod_list []) (drop (j * prod_list []) ys))) [0..<m]) = length (map (\<lambda>y. [y]) ys)"
      using l by simp
  next
    fix i assume "i < length (map (\<lambda>j. T_flat [] (take (prod_list []) (drop (j * prod_list []) ys))) [0..<m])"
    then have i: "i < length ys" using l by simp
    have "take 1 (drop i ys) = [ys ! i]"
      using i by (metis Cons_nth_drop_Suc One_nat_def take0 take_Suc_Cons)
    then show "map (\<lambda>j. T_flat [] (take (prod_list []) (drop (j * prod_list []) ys))) [0..<m] ! i = map (\<lambda>y. [y]) ys ! i"
      using i l by simp
  qed
  then show ?thesis by (simp add: transpose_singletons)
qed

lemma T_flat_2d:
  assumes len: "\<And>col. col \<in> set cols \<Longrightarrow> length col = p"
  shows "T_flat [length cols, p] (concat cols) = interleave p cols"
proof (cases "cols = []")
  case True
  then show ?thesis by (simp add: interleave_def)
next
  case False
  have chunks: "map (\<lambda>j. T_flat [p] (take (prod_list [p]) (drop (j * prod_list [p]) (concat cols))))
                  [0..<length cols] = cols"
  proof (rule nth_equalityI)
    show "length (map (\<lambda>j. T_flat [p] (take (prod_list [p]) (drop (j * prod_list [p]) (concat cols))))
                  [0..<length cols]) = length cols" by simp
  next
    fix j assume "j < length (map (\<lambda>j. T_flat [p] (take (prod_list [p]) (drop (j * prod_list [p]) (concat cols))))
                  [0..<length cols])"
    then have j: "j < length cols" by simp
    have "take p (drop (j * p) (concat cols)) = cols ! j"
      using chunk_concat [of cols p j] len j by simp
    moreover have "length (cols ! j) = p" using len j by simp
    ultimately show "map (\<lambda>j. T_flat [p] (take (prod_list [p]) (drop (j * prod_list [p]) (concat cols))))
                  [0..<length cols] ! j = cols ! j"
      using j T_flat_1d [of "cols ! j" p] by simp
  qed
  have rect: "transpose cols = map (\<lambda>i. map (\<lambda>j. cols ! j ! i) [0..<length cols]) [0..<p]"
  proof (rule transpose_rectangle)
    show "cols = [] \<Longrightarrow> p = 0" using False by simp
    show "\<And>i. i < length cols \<Longrightarrow> length (cols ! i) = p" using len by simp
  qed
  have cols_nth: "\<And>i. map (\<lambda>j. cols ! j ! i) [0..<length cols] = map (\<lambda>col. col ! i) cols"
    by (rule nth_equalityI) simp_all
  have "T_flat [length cols, p] (concat cols) = concat (transpose cols)"
    using chunks by (simp del: T_flat.simps(2) add: T_flat.simps(2) [of "length cols" "[p]"])
  then show ?thesis
    using rect cols_nth by (simp add: interleave_def)
qed

lemma getitem_plane:
  assumes "shape a = n # sh" "- int n \<le> i" "i < int n"
  shows "getitem a i = Inr (sub_array a i)"
  using assms by (simp add: getitem_ok sub_array_def)

lemma shape_plane: "shape a = n # sh \<Longrightarrow> shape (sub_array a i) = sh"
  by (simp add: sub_array_def)

lemma length_chunk: "(Suc k) * m \<le> length xs \<Longrightarrow> length (take m (drop (k * m) xs)) = m"
  by simp

lemma length_plane:
  assumes "wf_ndarray a" "shape a = n # sh" "- int n \<le> i" "i < int n"
  shows "length (flat (sub_array a i)) = prod_list sh"
proof -
  let ?k = "nat (if i < 0 then i + int n else i)"
  have "?k < n" using assms(3,4) by auto
  then have "Suc ?k \<le> n" by simp
  then have "Suc ?k * prod_list sh \<le> n * prod_list sh"
    by (rule mult_le_mono1)
  moreover have "length (flat a) = n * prod_list sh"
    using assms(1,2) by (simp add: wf_ndarray_def)
  ultimately have "length (take (prod_list sh) (drop (?k * prod_list sh) (flat a))) = prod_list sh"
    using length_chunk [of ?k "prod_list sh" "flat a"] by simp
  then show ?thesis using assms(2) by (cases "i < 0") (simp_all add: sub_array_def)
qed

lemma vstack_1d:
  assumes "arrs \<noteq> []" "\<And>a. a \<in> set arrs \<Longrightarrow> shape a = [p]"
  shows "vstack arrs = Inr \<lparr>shape = [length arrs, p], flat = concat (map flat arrs)\<rparr>"
proof -
  have m: "map atleast_2d arrs = map (\<lambda>a. \<lparr>shape = [1, p], flat = flat a\<rparr>) arrs"
    using assms(2) by (simp add: atleast_2d_def)
  obtain a as where c: "arrs = a # as" using assms(1) by (cases arrs) auto
  have s: "sum_list (map (\<lambda>b. hd (shape b)) (map (\<lambda>a. \<lparr>shape = [1, p], flat = flat a\<rparr>) arrs)) = length arrs"
    by (induction arrs) simp_all
  have f: "map flat (map (\<lambda>a. \<lparr>shape = [1, p], flat = flat a\<rparr>) arrs) = map flat arrs"
    by simp
  have la: "list_all (\<lambda>b. tl (shape b) = [p]) (map (\<lambda>a. \<lparr>shape = [1, p], flat = flat a\<rparr>) as)"
    by (simp add: list_all_iff)
  show ?thesis
    unfolding vstack_def m using s f la unfolding c by (simp add: comp_def)
qed

lemma T_columns:
  assumes "\<And>col. col \<in> set cols \<Longrightarrow> length col = p"
  shows "T \<lparr>shape = [length cols, p], flat = concat cols\<rparr>
         = \<lparr>shape = [p, length cols], flat = interleave p cols\<rparr>"
proof -
  have "T_flat [length cols, p] (concat cols) = interleave p cols"
    by (rule T_flat_2d) (use assms in auto)
  then show ?thesis by (simp add: T_def del: T_flat.simps)
qed

lemma column_interleave:
  assumes "\<And>col. col \<in> set cols \<Longrightarrow> length col = p" "j < length cols"
  shows "column \<lparr>shape = [p, length cols], flat = interleave p cols\<rparr> j = cols ! j"
proof -
  let ?rows = "map (\<lambda>i. map (\<lambda>col. col ! i) cols) [0..<p]"
  have "map (\<lambda>i. concat ?rows ! (i * length cols + j)) [0..<p] = cols ! j"
  proof (rule nth_equalityI)
    show "length (map (\<lambda>i. concat ?rows ! (i * length cols + j)) [0..<p]) = length (cols ! j)"
      using assms by simp
  next
    fix i assume "i < length (map (\<lambda>i. concat ?rows ! (i * length cols + j)) [0..<p])"
    then have i: "i < p" by simp
    have "concat ?rows ! (i * length cols + j) = ?rows ! i ! j"
      by (rule nth_concat_const) (use i assms(2) in auto)
    then show "map (\<lambda>i. concat ?rows ! (i * length cols + j)) [0..<p] ! i = cols ! j ! i"
      using i assms(2) by simp
  qed
  then show ?thesis by (simp add: column_def interleave_def)
qed

lemma wf_plane:
  assumes "wf_ndarray a" "shape a = n # sh" "- int n \<le> i" "i < int n"
  shows "wf_ndarray (sub_array a i)"
  using length_plane [OF assms] shape_plane [OF assms(2), of i] by (simp add: wf_ndarray_def)

lemma bands_1D_ok:
  assumes "shape data = n # sh" "\<And>b. b \<in> set bs \<Longrightarrow> - int n \<le> b \<and> b < int n"
  shows "traverse (\<lambda>band. case getitem data band of
                             Inl e \<Rightarrow> Inl e
                           | Inr plane \<Rightarrow> Inr (ravel plane)) bs
         = Inr (map (\<lambda>b. ravel (sub_array data b)) bs)"
  by (rule traverse_ok) (use assms in \<open>simp add: getitem_plane\<close>)

lemma blurred_1D_ok:
  assumes "shape data = n # sh" "\<And>b. b \<in> set bs \<Longrightarrow> - int n \<le> b \<and> b < int n"
  shows "traverse (\<lambda>band. case getitem data band of
                             Inl e \<Rightarrow> Inl e
                           | Inr plane \<Rightarrow> Inr (ravel (gf plane sigma))) bs
         = Inr (map (\<lambda>b. ravel (gf (sub_array data b) sigma)) bs)"
  by (rule traverse_ok) (use assms in \<open>simp add: getitem_plane\<close>)

lemma vstack_T_columns:
  assumes "arrs \<noteq> []" "\<And>a. a \<in> set arrs \<Longrightarrow> shape a = [p] \<and> length (flat a) = p"
    and "map flat arrs = cols"
  shows "(case vstack arrs of Inl e \<Rightarrow> Inl e | Inr stacked \<Rightarrow> Inr (T stacked))
         = Inr \<lparr>shape = [p, length cols], flat = interleave p cols\<rparr>"
proof -
  have "vstack arrs = Inr \<lparr>shape = [length arrs, p], flat = concat (map flat arrs)\<rparr>"
    by (rule vstack_1d) (use assms(1,2) in auto)
  then have v: "vstack arrs = Inr \<lparr>shape = [length cols, p], flat = concat cols\<rparr>"
    using assms(3) by auto
  have "\<And>col. col \<in> set cols \<Longrightarrow> length col = p"
    using assms(2,3) by auto
  then have "T \<lparr>shape = [length cols, p], flat = concat cols\<rparr>
             = \<lparr>shape = [p, length cols], flat = interleave p cols\<rparr>"
    by (rule T_columns)
  then show ?thesis
    using v by simp
qed

lemma return_features_unblurred:
  assumes "wf_ndarray data" "shape data = n # sh" "bs \<noteq> []"
    and "\<And>b. b \<in> set bs \<Longrightarrow> - int n \<le> b \<and> b < int n"
  shows "return_features gf data (Some bs) False
         = Inr \<lparr>shape = [prod_list sh, length bs],
                flat = interleave (prod_list sh) (map (\<lambda>b. flat (sub_array data b)) bs)\<rparr>"
proof -
  let ?arrs = "map (\<lambda>b. ravel (sub_array data b)) bs"
  let ?cols = "map (\<lambda>b. flat (sub_array data b)) bs"
  have tr: "traverse (\<lambda>band. case getitem data band of
                                Inl e \<Rightarrow> Inl e
                              | Inr plane \<Rightarrow> Inr (ravel plane)) bs = Inr ?arrs"
    by (rule bands_1D_ok [OF assms(2)]) (use assms(4) in auto)
  have a: "\<And>a. a \<in> set ?arrs \<Longrightarrow> shape a = [prod_list sh] \<and> length (flat a) = prod_list sh"
    using assms(1,2,4) by (auto simp add: ravel_def shape_plane length_plane)
  have f: "map flat ?arrs = ?cols"
    by (simp add: ravel_def)
  have "(case vstack ?arrs of Inl e \<Rightarrow> Inl e | Inr stacked \<Rightarrow> Inr (T stacked))
        = Inr \<lparr>shape = [prod_list sh, length ?cols], flat = interleave (prod_list sh) ?cols\<rparr>"
    by (rule vstack_T_columns [OF _ a f]) (use assms(3) in auto)
  then show ?thesis
    unfolding return_features_def default_bands_def by (simp add: tr)
qed

lemma return_features_blurred:
  assumes "wf_ndarray data" "shape data = n # sh" "bs \<noteq> []"
    and "\<And>b. b \<in> set bs \<Longrightarrow> - int n \<le> b \<and> b < int n"
    and "\<And>p. wf_ndarray p \<Longrightarrow> wf_ndarray (gf p 2) \<and> shape (gf p 2) = shape p"
  shows "return_features gf data (Some bs) True
         = Inr \<lparr>shape = [prod_list sh, 2 * length bs],
                flat = interleave (prod_list sh)
                         (map (\<lambda>b. flat (sub_array data b)) bs
                          @ map (\<lambda>b. flat (gf (sub_array data b) 2)) bs)\<rparr>"
proof -
  let ?arrs1 = "map (\<lambda>b. ravel (sub_array data b)) bs"
  let ?arrs2 = "map (\<lambda>b. ravel (gf (sub_array data b) 2)) bs"
  let ?cols = "map (\<lambda>b. flat (sub_array data b)) bs @ map (\<lambda>b. flat (gf (sub_array data b) 2)) bs"
  have tr1: "traverse (\<lambda>band. case getitem data band of
                                Inl e \<Rightarrow> Inl e
                              | Inr plane \<Rightarrow> Inr (ravel plane)) bs = Inr ?arrs1"
    by (rule bands_1D_ok [OF assms(2)]) (use assms(4) in auto)
  have tr2: "traverse (\<lambda>band. case getitem data band of
                                Inl e \<Rightarrow> Inl e
                              | Inr plane \<Rightarrow> Inr (ravel (gf plane 2))) bs = Inr ?arrs2"
    by (rule blurred_1D_ok [OF assms(2)]) (use assms(4) in auto)
  have g: "\<And>b. b \<in> set bs \<Longrightarrow> shape (gf (sub_array data b) 2) = sh
              \<and> length (flat (gf (sub_array data b) 2)) = prod_list sh"
  proof -
    fix b assume b: "b \<in> set bs"
    have w: "wf_ndarray (sub_array data b)"
      using wf_plane [OF assms(1,2)] assms(4) [OF b] by simp
    have "shape (gf (sub_array data b) 2) = sh"
      using assms(5) [OF w] shape_plane [OF assms(2), of b] by simp
    then show "shape (gf (sub_array data b) 2) = sh
               \<and> length (flat (gf (sub_array data b) 2)) = prod_list sh"
      using assms(5) [OF w] by (simp add: wf_ndarray_def)
  qed
  have a1: "\<And>a. a \<in> set ?arrs1 \<Longrightarrow> shape a = [prod_list sh] \<and> length (flat a) = prod_list sh"
    using assms(1,2,4) by (auto simp add: ravel_def shape_plane length_plane)
  have a2: "\<And>a. a \<in> set ?arrs2 \<Longrightarrow> shape a = [prod_list sh] \<and> length (flat a) = prod_list sh"
    using g by (auto simp add: ravel_def)
  have a: "\<And>a. a \<in> set (?arrs1 @ ?arrs2) \<Longrightarrow> shape a = [prod_list sh] \<and> length (flat a) = prod_list sh"
    using a1 a2 by (metis Un_iff set_append)
  have f: "map flat (?arrs1 @ ?arrs2) = ?cols"
    by (simp add: ravel_def)
  have l: "length ?cols = 2 * length bs"
    by simp
  have "(case vstack (?arrs1 @ ?arrs2) of Inl e \<Rightarrow> Inl e | Inr stacked \<Rightarrow> Inr (T stacked))
        = Inr \<lparr>shape = [prod_list sh, length ?cols], flat = interleave (prod_list sh) ?cols\<rparr>"
    by (rule vstack_T_columns [OF _ a f]) (use assms(3) in auto)
  then have "(case vstack (?arrs1 @ ?arrs2) of Inl e \<Rightarrow> Inl e | Inr stacked \<Rightarrow> Inr (T stacked))
        = Inr \<lparr>shape = [prod_list sh, 2 * length bs], flat = interleave (prod_list sh) ?cols\<rparr>"
    by (simp only: l)
  then show ?thesis
    unfolding return_features_def default_bands_def by (simp add: tr1 tr2)
qed

lemma length_concat_const:
  "(\<And>xs. xs \<in> set xss \<Longrightarrow> length xs = m) \<Longrightarrow> length (concat xss) = length xss * m"
  by (induction xss) auto

lemma length_interleave: "length (interleave p cols) = p * length cols"
proof -
  have "length (concat (map (\<lambda>i. map (\<lambda>col. col ! i) cols) [0..<p]))
        = length (map (\<lambda>i. map (\<lambda>col. col ! i) cols) [0..<p]) * length cols"
    by (rule length_concat_const) auto
  then show ?thesis by (simp add: interleave_def)
qed

lemma sub_array_negative:
  assumes "shape a = n # sh" "1 \<le> k" "k \<le> n"
  shows "sub_array a (- int k) = sub_array a (int (n - k))"
proof -
  have "nat (- int k + int n) = n - k" using assms(3) by simp
  moreover have "- int k < 0" using assms(2) by simp
  ultimately show ?thesis using assms(1) by (simp add: sub_array_def)
qed

lemma return_features_resolved:
  "return_features gf data bands blurring =
     (case default_bands data bands of
        Inl e \<Rightarrow> Inl e
      | Inr bs \<Rightarrow> return_features gf data (Some bs) blurring)"
  by (cases "default_bands data bands") (simp_all add: return_features_def default_bands_def)

lemma return_features_Inr_range:
  assumes "return_features gf data (Some bs) blurring = Inr F" "shape data = n # sh"
  shows "bs \<noteq> [] \<and> (\<forall>b\<in>set bs. - int n \<le> b \<and> b < int n)"
proof -
  let ?f = "\<lambda>band. case getitem data band of
                      Inl e \<Rightarrow> (Inl e :: error + 'a ndarray)
                    | Inr plane \<Rightarrow> Inr (ravel plane)"
  have ne: "bs \<noteq> []"
  proof
    assume "bs = []"
    then have "return_features gf data (Some bs) blurring = Inl ValueError"
      by (simp add: return_features_def default_bands_def vstack_def)
    then show False using assms(1) by simp
  qed
  obtain ys where tr: "traverse ?f bs = Inr ys"
    using assms(1)
    by (cases "traverse ?f bs") (simp_all add: return_features_def default_bands_def)
  have "\<forall>b\<in>set bs. - int n \<le> b \<and> b < int n"
  proof
    fix b assume b: "b \<in> set bs"
    obtain y where y: "?f b = Inr y"
      using traverse_Inr [OF tr b] by blast
    show "- int n \<le> b \<and> b < int n"
    proof (rule ccontr)
      assume "\<not> (- int n \<le> b \<and> b < int n)"
      then have "getitem data b = Inl IndexError"
        using assms(2) by (intro getitem_err) auto
      then show False using y by simp
    qed
  qed
  then show ?thesis using ne by simp
qed

lemma return_features_Inr_form:
  assumes "return_features gf data (Some bs) False = Inr F" "wf_ndarray data" "shape data = n # sh"
  shows "F = \<lparr>shape = [prod_list sh, length bs],
              flat = interleave (prod_list sh) (map (\<lambda>b. flat (sub_array data b)) bs)\<rparr>"
proof -
  have r: "bs \<noteq> [] \<and> (\<forall>b\<in>set bs. - int n \<le> b \<and> b < int n)"
    using assms(1,3) by (rule return_features_Inr_range)
  have "return_features gf data (Some bs) False
        = Inr \<lparr>shape = [prod_list sh, length bs],
               flat = interleave (prod_list sh) (map (\<lambda>b. flat (sub_array data b)) bs)\<rparr>"
    by (rule return_features_unblurred [OF assms(2,3)]) (use r in auto)
  then show ?thesis using assms(1) by simp
qed

lemma filter_by_index:
  "map (\<lambda>i. f (xs ! i)) (filter (\<lambda>i. P (xs ! i)) [0..<length xs]) = map f (filter P xs)"
proof -
  have "map f (filter P xs) = map f (filter P (map (\<lambda>i. xs ! i) [0..<length xs]))"
    by (simp add: map_nth)
  also have "\<dots> = map f (map (\<lambda>i. xs ! i) (filter (\<lambda>i. P (xs ! i)) [0..<length xs]))"
    by (simp only: filter_map comp_def)
  finally show ?thesis by simp
qed


lemma return_features_Inr_shape:
  assumes "return_features gf data bands False = Inr F" "wf_ndarray data" "shape data = n # sh"
  shows "\<exists>k. shape F = [prod_list sh, k] \<and> length (flat F) = prod_list sh * k"
proof -
  obtain bs where "return_features gf data (Some bs) False = Inr F"
    using assms(1) return_features_resolved [of gf data bands False]
    by (cases "default_bands data bands") simp_all
  then have "F = \<lparr>shape = [prod_list sh, length bs],
                  flat = interleave (prod_list sh) (map (\<lambda>b. flat (sub_array data b)) bs)\<rparr>"
    using assms(2,3) by (rule return_features_Inr_form)
  then show ?thesis
    by (simp add: length_interleave)
qed

lemma mask_indices:
  "filter (\<lambda>i. map P xs ! i) [0..<length xs] = filter (\<lambda>i. P (xs ! i)) [0..<length xs]"
  by (rule filter_cong) auto


lemma mask_dims_same: "list_all2 (\<lambda>d n. d = 0 \<or> d = n) sh sh"
  by (rule list_all2_refl) simp

lemma getitem_mask_elements:
  "getitem_mask (abs_nd G) (ne_scalar G v)
   = Inr \<lparr>shape = [length (filter (\<lambda>x. np_ne x v) (flat G))],
          flat = map np_abs (filter (\<lambda>x. np_ne x v) (flat G))\<rparr>"
proof -
  let ?xs = "flat G"
  let ?idx = "filter (\<lambda>i. np_ne (?xs ! i) v) [0..<length ?xs]"
  have "map (\<lambda>i. take 1 (drop (i * 1) (map np_abs ?xs))) ?idx = map (\<lambda>i. [np_abs (?xs ! i)]) ?idx"
  proof (rule map_cong [OF refl])
    fix i assume "i \<in> set ?idx"
    then have i: "i < length (map np_abs ?xs)" by simp
    have "take 1 (drop i (map np_abs ?xs)) = [map np_abs ?xs ! i]"
      using i by (metis Cons_nth_drop_Suc One_nat_def take0 take_Suc_Cons)
    then show "take 1 (drop (i * 1) (map np_abs ?xs)) = [np_abs (?xs ! i)]"
      using i by simp
  qed
  then have "concat (map (\<lambda>i. take 1 (drop (i * 1) (map np_abs ?xs))) ?idx)
             = concat (map (\<lambda>i. [np_abs (?xs ! i)]) ?idx)"
    by (rule arg_cong)
  also have "\<dots> = map (\<lambda>i. np_abs (?xs ! i)) ?idx"
    by (rule concat_map_singleton)
  also have "\<dots> = map np_abs (filter (\<lambda>x. np_ne x v) ?xs)"
    by (rule filter_by_index)
  finally have c: "concat (map (\<lambda>i. take 1 (drop (i * 1) (map np_abs ?xs))) ?idx)
                   = map np_abs (filter (\<lambda>x. np_ne x v) ?xs)" .
  have i: "filter (\<lambda>i. map (\<lambda>x. np_ne x v) ?xs ! i) [0..<length ?xs] = ?idx"
    by (rule mask_indices)
  show ?thesis
    using c i by (simp add: getitem_mask_def abs_nd_def ne_scalar_def Let_def comp_def mask_dims_same)
qed

lemma getitem_mask_1d:
  assumes "shape F = [p, k]"
  shows "getitem_mask F \<lparr>shape = [l], flat = fs\<rparr> =
           (if l = 0 \<or> l = p
            then Inr \<lparr>shape = [length (filter (\<lambda>b. b) fs), k],
                      flat = concat (map (\<lambda>i. take k (drop (i * k) (flat F)))
                                         (filter (\<lambda>i. fs ! i) [0..<length fs]))\<rparr>
            else Inl IndexError)"
  using assms by (simp add: getitem_mask_def Let_def)


lemma create_training_data_unfold:
  "create_training_data gf s2_data G v bands =
     (case return_features gf s2_data bands False of
        Inl e \<Rightarrow> Inl e
      | Inr features \<Rightarrow>
          (case getitem_mask features (ravel (ne_scalar G v)) of
             Inl e \<Rightarrow> Inl e
           | Inr X \<Rightarrow>
               Inr (X, \<lparr>shape = [length (filter (\<lambda>x. np_ne x v) (flat G)), 1],
                        flat = map np_abs (filter (\<lambda>x. np_ne x v) (flat G))\<rparr>)))"
proof (cases "default_bands s2_data bands")
  case (Inl e)
  then show ?thesis
    by (simp add: create_training_data_def return_features_resolved [of gf s2_data bands])
next
  case (Inr bs)
  then show ?thesis
    by (simp add: create_training_data_def return_features_resolved [of gf s2_data bands]
        getitem_mask_elements reshape_column_def Let_def split: sum.splits)
qed




section \<open>The claims\<close>

text \<open>
  C1, as the code has it: \<open>create_training_data\<close> makes no shape check of its own. It
  first computes the feature matrix, and an exception of that computation is the
  exception of the call. Then the boolean row selection \<open>features[mask.ravel()]\<close>
  compares the number of pixels of the ground truth with the number of rows: when the
  ground truth has pixels, and not as many as a plane of the stack, it raises
  IndexError and no pair is returned; when it has as many pixels as a plane, or none,
  a pair is returned, whatever the shape of the ground truth.
\<close>

theorem create_training_data_pixel_count_check:
  assumes "wf_ndarray s2_data" and "shape s2_data = [N, rows, cols]"
  shows "(0 < prod_list (shape ground_truth_data)
            \<and> prod_list (shape ground_truth_data) \<noteq> rows * cols \<longrightarrow>
          create_training_data gaussian_filter s2_data ground_truth_data no_data_value s2_bands =
            (case return_features gaussian_filter s2_data s2_bands False of
               Inl e \<Rightarrow> Inl e
             | Inr features \<Rightarrow> Inl IndexError))
       \<and> (prod_list (shape ground_truth_data) = 0
            \<or> prod_list (shape ground_truth_data) = rows * cols \<longrightarrow>
          (case return_features gaussian_filter s2_data s2_bands False of
             Inl e \<Rightarrow>
               create_training_data gaussian_filter s2_data ground_truth_data no_data_value s2_bands
               = Inl e
           | Inr features \<Rightarrow>
               (\<exists>X y. create_training_data gaussian_filter s2_data ground_truth_data
                         no_data_value s2_bands = Inr (X, y))))"
proof (cases "return_features gaussian_filter s2_data s2_bands False")
  case (Inl e)
  then show ?thesis
    by (simp add: create_training_data_unfold)
next
  case (Inr F)
  then obtain k where k: "shape F = [rows * cols, k]"
    using return_features_Inr_shape [OF Inr assms(1,2)] by auto
  let ?l = "prod_list (shape ground_truth_data)"
  let ?fs = "map (\<lambda>x. np_ne x no_data_value) (flat ground_truth_data)"
  have m: "ravel (ne_scalar ground_truth_data no_data_value) = \<lparr>shape = [?l], flat = ?fs\<rparr>"
    by (simp add: ravel_def ne_scalar_def)
  have g: "getitem_mask F (ravel (ne_scalar ground_truth_data no_data_value)) =
             (if ?l = 0 \<or> ?l = rows * cols
              then Inr \<lparr>shape = [length (filter (\<lambda>b. b) ?fs), k],
                        flat = concat (map (\<lambda>i. take k (drop (i * k) (flat F)))
                                           (filter (\<lambda>i. ?fs ! i) [0..<length ?fs]))\<rparr>
              else Inl IndexError)"
    unfolding m by (rule getitem_mask_1d [OF k])
  show ?thesis
  proof (cases "?l = 0 \<or> ?l = rows * cols")
    case True
    then show ?thesis
      using Inr g by (auto simp add: create_training_data_unfold)
  next
    case False
    then show ?thesis
      using Inr g by (simp add: create_training_data_unfold)
  qed
qed

theorem create_training_data_pixel_count_check_witness:
  "wf_ndarray scenario_stack \<and> shape scenario_stack = [2, 2, 2]
   \<and> create_training_data example_filter scenario_stack
         \<lparr>shape = [2, 3], flat = map (SInt 16) [- 1, - 9999, - 9999, 3, 4, - 5]\<rparr>
         (SInt 16 (- 9999)) None
       = Inl IndexError
   \<and> create_training_data example_filter scenario_stack
         \<lparr>shape = [4, 1], flat = map (SInt 16) [- 1, - 9999, - 9999, 3]\<rparr>
         (SInt 16 (- 9999)) None
       = Inr (\<lparr>shape = [2, 2], flat = [1, 5, 4, 8]\<rparr>,
              \<lparr>shape = [2, 1], flat = [SInt 16 1, SInt 16 3]\<rparr>)
   \<and> create_training_data example_filter scenario_stack
         \<lparr>shape = [0, 3], flat = []\<rparr> (SInt 16 (- 9999)) None
       = Inr (\<lparr>shape = [0, 2], flat = []\<rparr>, \<lparr>shape = [0, 1], flat = []\<rparr>)"
proof -
  have h1: "wf_ndarray scenario_stack"
    by (simp add: wf_ndarray_def scenario_stack_def)
  have h2: "shape scenario_stack = [2, 2, 2]"
    by (simp add: scenario_stack_def)
  have e: "return_features example_filter scenario_stack None False
           = Inr \<lparr>shape = [4, 2], flat = [1, 5, 2, 6, 3, 7, 4, 8]\<rparr>"
    by code_simp
  have a: "create_training_data example_filter scenario_stack
             \<lparr>shape = [2, 3], flat = map (SInt 16) [- 1, - 9999, - 9999, 3, 4, - 5]\<rparr>
             (SInt 16 (- 9999)) None
           = Inl IndexError"
    using e
      create_training_data_pixel_count_check
        [where gaussian_filter = example_filter and s2_bands = None
           and no_data_value = "SInt 16 (- 9999)"
           and ground_truth_data
             = "\<lparr>shape = [2, 3], flat = map (SInt 16) [- 1, - 9999, - 9999, 3, 4, - 5]\<rparr>",
         OF h1 h2]
    by simp
  have b: "create_training_data example_filter scenario_stack
             \<lparr>shape = [4, 1], flat = map (SInt 16) [- 1, - 9999, - 9999, 3]\<rparr>
             (SInt 16 (- 9999)) None
           = Inr (\<lparr>shape = [2, 2], flat = [1, 5, 4, 8]\<rparr>,
                  \<lparr>shape = [2, 1], flat = [SInt 16 1, SInt 16 3]\<rparr>)"
    by code_simp
  have c: "create_training_data example_filter scenario_stack
             \<lparr>shape = [0, 3], flat = []\<rparr> (SInt 16 (- 9999)) None
           = Inr (\<lparr>shape = [0, 2], flat = []\<rparr>, \<lparr>shape = [0, 1], flat = []\<rparr>)"
    by code_simp
  show ?thesis
    using h1 h2 a b c by simp
qed

text \<open>
  C1, as the spec states it, fails: a ground truth of shape (3, 2) does not match the
  (2, 3) planes of the stack, yet it has as many pixels, and the call returns a pair.
\<close>

theorem create_training_data_same_pixel_count_counterexample:
  "tl (shape \<lparr>shape = [1, 2, 3], flat = [1, 2, 3, 4, 5, 6 :: int]\<rparr>) = [2, 3]
   \<and> shape \<lparr>shape = [3, 2], flat = map (SInt 16) [- 1, - 9999, - 9999, 3, 4, - 5]\<rparr> = [3, 2]
   \<and> create_training_data example_filter
         \<lparr>shape = [1, 2, 3], flat = [1, 2, 3, 4, 5, 6 :: int]\<rparr>
         \<lparr>shape = [3, 2], flat = map (SInt 16) [- 1, - 9999, - 9999, 3, 4, - 5]\<rparr>
         (SInt 16 (- 9999)) None
       = Inr (\<lparr>shape = [4, 1], flat = [1, 4, 5, 6]\<rparr>,
              \<lparr>shape = [4, 1], flat = [SInt 16 1, SInt 16 3, SInt 16 4, SInt 16 5]\<rparr>)"
  by code_simp

text \<open>
  C2, as the code has it: a call with an empty band selection never returns a matrix. The
  comprehension yields no band, and \<open>np.vstack\<close> of an empty sequence raises ValueError,
  whatever the stack and with or without blurring.
\<close>

theorem return_features_empty_selection_fails:
  "return_features gaussian_filter data (Some []) blurring = Inl ValueError"
  by (simp add: return_features_def default_bands_def vstack_def)

text \<open>
  C2, as the spec states it, fails on the scenario's stack (four pixels): the call raises
  instead of returning a matrix of shape (4, 0).
\<close>

theorem return_features_empty_selection_counterexample:
  "prod_list (tl (shape scenario_stack)) = 4 \<and>
   return_features example_filter scenario_stack (Some []) False = Inl ValueError"
  by (simp add: return_features_def default_bands_def vstack_def scenario_stack_def)

text \<open>
  C3: for a well-formed stack of \<open>N\<close> bands of \<open>rows\<close> x \<open>cols\<close> pixels and a non-empty
  selection of indices in \<open>0 .. N-1\<close>, the call without blurring returns a matrix of
  shape \<open>(rows * cols, len(bands))\<close> whose \<open>j\<close>-th column is \<open>data[bands[j]].ravel()\<close>,
  the row-major flattening of the selected band.
\<close>

theorem return_features_columns:
  assumes "wf_ndarray data" and "shape data = [N, rows, cols]" and "bands \<noteq> []"
    and "\<forall>b\<in>set bands. 0 \<le> b \<and> b < int N"
  shows "\<exists>M. return_features gaussian_filter data (Some bands) False = Inr M
             \<and> shape M = [rows * cols, length bands] \<and> wf_ndarray M
             \<and> (\<forall>j<length bands. \<exists>plane. getitem data (bands ! j) = Inr plane
                                            \<and> column M j = flat (ravel plane))"
proof -
  let ?cs = "map (\<lambda>b. flat (sub_array data b)) bands"
  let ?M = "\<lparr>shape = [rows * cols, length bands], flat = interleave (rows * cols) ?cs\<rparr>"
  have rng: "\<And>b. b \<in> set bands \<Longrightarrow> - int N \<le> b \<and> b < int N"
    using assms(4) by auto
  have "return_features gaussian_filter data (Some bands) False
        = Inr \<lparr>shape = [prod_list [rows, cols], length bands],
               flat = interleave (prod_list [rows, cols]) ?cs\<rparr>"
    using assms(1,2,3) rng by (rule return_features_unblurred)
  then have r: "return_features gaussian_filter data (Some bands) False = Inr ?M"
    by simp
  have w: "wf_ndarray ?M"
    by (simp add: wf_ndarray_def length_interleave)
  have len: "\<And>col. col \<in> set ?cs \<Longrightarrow> length col = rows * cols"
    using length_plane [OF assms(1,2)] rng by auto
  have c: "\<forall>j<length bands. \<exists>plane. getitem data (bands ! j) = Inr plane
                                      \<and> column ?M j = flat (ravel plane)"
  proof (intro allI impI)
    fix j assume j: "j < length bands"
    then have b: "bands ! j \<in> set bands" by simp
    have g: "getitem data (bands ! j) = Inr (sub_array data (bands ! j))"
      using getitem_plane [OF assms(2)] rng [OF b] by simp
    have "column \<lparr>shape = [rows * cols, length ?cs], flat = interleave (rows * cols) ?cs\<rparr> j = ?cs ! j"
      by (rule column_interleave) (use len j in auto)
    then have "column ?M j = flat (ravel (sub_array data (bands ! j)))"
      using j by (simp add: ravel_def)
    then show "\<exists>plane. getitem data (bands ! j) = Inr plane \<and> column ?M j = flat (ravel plane)"
      using g by blast
  qed
  show ?thesis
    using r w c by (intro exI [of _ ?M]) simp
qed

theorem return_features_columns_witness:
  "wf_ndarray scenario_stack \<and> shape scenario_stack = [2, 2, 2] \<and> [0, 1] \<noteq> ([] :: int list)
   \<and> list_all (\<lambda>b. 0 \<le> b \<and> b < int 2) [0, 1]
   \<and> (\<exists>M. return_features example_filter scenario_stack (Some [0, 1]) False = Inr M
            \<and> shape M = [2 * 2, length [0 :: int, 1]] \<and> wf_ndarray M
            \<and> (\<forall>j<length [0 :: int, 1]. \<exists>plane. getitem scenario_stack ([0, 1] ! j) = Inr plane
                                                  \<and> column M j = flat (ravel plane))
            \<and> rows_of M = [[1, 5], [2, 6], [3, 7], [4, 8]])"
proof -
  have h1: "wf_ndarray scenario_stack"
    by (simp add: wf_ndarray_def scenario_stack_def)
  have h2: "shape scenario_stack = [2, 2, 2]"
    by (simp add: scenario_stack_def)
  have h3: "[0, 1] \<noteq> ([] :: int list)"
    by simp
  have h4: "\<forall>b\<in>set [0, 1]. 0 \<le> b \<and> b < int 2"
    by simp
  have e: "return_features example_filter scenario_stack (Some [0, 1]) False
           = Inr \<lparr>shape = [4, 2], flat = [1, 5, 2, 6, 3, 7, 4, 8]\<rparr>"
    by code_simp
  have r: "rows_of \<lparr>shape = [4, 2], flat = [1, 5, 2, 6, 3, 7, 4, 8 :: int]\<rparr>
           = [[1, 5], [2, 6], [3, 7], [4, 8]]"
    by code_simp
  show ?thesis
    using h1 h2 h3 h4 e r return_features_columns [OF h1 h2 h3 h4, of example_filter]
    by simp
qed

text \<open>
  C4: with blurring, for the same stacks and selections, and a smoothing primitive that
  keeps the shape of a plane, the call returns a matrix of shape
  \<open>(rows * cols, 2 * len(bands))\<close>. Its first \<open>len(bands)\<close> columns are the columns of the
  matrix returned without blurring, and column \<open>len(bands) + j\<close> is
  \<open>gaussian_filter(data[bands[j]], 2.0).ravel()\<close>: the plane of the band is smoothed as a
  two-dimensional array with standard deviation 2 and flattened afterwards.
\<close>

theorem return_features_blurring_columns:
  assumes "wf_ndarray data" and "shape data = [N, rows, cols]" and "bands \<noteq> []"
    and "\<forall>b\<in>set bands. 0 \<le> b \<and> b < int N"
    and "\<forall>p. wf_ndarray p \<longrightarrow> wf_ndarray (gaussian_filter p 2) \<and> shape (gaussian_filter p 2) = shape p"
  shows "\<exists>M M0. return_features gaussian_filter data (Some bands) True = Inr M
             \<and> return_features gaussian_filter data (Some bands) False = Inr M0
             \<and> shape M = [rows * cols, 2 * length bands] \<and> wf_ndarray M
             \<and> shape M0 = [rows * cols, length bands]
             \<and> (\<forall>j<length bands. column M j = column M0 j)
             \<and> (\<forall>j<length bands. \<exists>plane. getitem data (bands ! j) = Inr plane
                    \<and> column M (length bands + j) = flat (ravel (gaussian_filter plane 2)))"
proof -
  let ?cs = "map (\<lambda>b. flat (sub_array data b)) bands"
  let ?gs = "map (\<lambda>b. flat (gaussian_filter (sub_array data b) 2)) bands"
  let ?U = "\<lparr>shape = [rows * cols, length bands], flat = interleave (rows * cols) ?cs\<rparr>"
  let ?M = "\<lparr>shape = [rows * cols, 2 * length bands], flat = interleave (rows * cols) (?cs @ ?gs)\<rparr>"
  have rng: "\<And>b. b \<in> set bands \<Longrightarrow> - int N \<le> b \<and> b < int N"
    using assms(4) by auto
  have gf: "\<And>p. wf_ndarray p \<Longrightarrow> wf_ndarray (gaussian_filter p 2) \<and> shape (gaussian_filter p 2) = shape p"
    using assms(5) by blast
  have "return_features gaussian_filter data (Some bands) False
        = Inr \<lparr>shape = [prod_list [rows, cols], length bands],
               flat = interleave (prod_list [rows, cols]) ?cs\<rparr>"
    using assms(1,2,3) rng by (rule return_features_unblurred)
  then have r0: "return_features gaussian_filter data (Some bands) False = Inr ?U"
    by simp
  have "return_features gaussian_filter data (Some bands) True
        = Inr \<lparr>shape = [prod_list [rows, cols], 2 * length bands],
               flat = interleave (prod_list [rows, cols]) (?cs @ ?gs)\<rparr>"
    using assms(1,2,3) rng gf by (rule return_features_blurred)
  then have r: "return_features gaussian_filter data (Some bands) True = Inr ?M"
    by simp
  have w: "wf_ndarray ?M"
    by (simp add: wf_ndarray_def length_interleave)
  have len0: "\<And>col. col \<in> set ?cs \<Longrightarrow> length col = rows * cols"
    using length_plane [OF assms(1,2)] rng by auto
  have leng: "\<And>col. col \<in> set ?gs \<Longrightarrow> length col = rows * cols"
  proof -
    fix col assume "col \<in> set ?gs"
    then obtain b where b: "b \<in> set bands" and c: "col = flat (gaussian_filter (sub_array data b) 2)"
      by auto
    have wp: "wf_ndarray (sub_array data b)"
      using wf_plane [OF assms(1,2)] rng [OF b] by simp
    have "shape (gaussian_filter (sub_array data b) 2) = [rows, cols]"
      using gf [OF wp] shape_plane [OF assms(2), of b] by simp
    then show "length col = rows * cols"
      using gf [OF wp] c by (simp add: wf_ndarray_def)
  qed
  have len: "\<And>col. col \<in> set (?cs @ ?gs) \<Longrightarrow> length col = rows * cols"
    using len0 leng by (metis Un_iff set_append)
  have l2: "2 * length bands = length (?cs @ ?gs)"
    by simp
  have colM: "\<And>j. j < 2 * length bands \<Longrightarrow> column ?M j = (?cs @ ?gs) ! j"
  proof -
    fix j assume j: "j < 2 * length bands"
    have "column \<lparr>shape = [rows * cols, length (?cs @ ?gs)],
                   flat = interleave (rows * cols) (?cs @ ?gs)\<rparr> j = (?cs @ ?gs) ! j"
      by (rule column_interleave [OF len]) (use j in auto)
    then show "column ?M j = (?cs @ ?gs) ! j"
      by (simp only: l2 [symmetric])
  qed
  have colM0: "\<And>j. j < length bands \<Longrightarrow> column ?U j = ?cs ! j"
  proof -
    fix j assume j: "j < length bands"
    have "column \<lparr>shape = [rows * cols, length ?cs], flat = interleave (rows * cols) ?cs\<rparr> j = ?cs ! j"
      by (rule column_interleave [OF len0]) (use j in auto)
    then show "column ?U j = ?cs ! j"
      by simp
  qed
  have first: "\<forall>j<length bands. column ?M j = column ?U j"
  proof (intro allI impI)
    fix j assume j: "j < length bands"
    then have "column ?M j = (?cs @ ?gs) ! j"
      using colM [of j] by simp
    also have "\<dots> = ?cs ! j"
      using j by (simp add: nth_append)
    finally show "column ?M j = column ?U j"
      using colM0 [OF j] by simp
  qed
  have last: "\<forall>j<length bands. \<exists>plane. getitem data (bands ! j) = Inr plane
                 \<and> column ?M (length bands + j) = flat (ravel (gaussian_filter plane 2))"
  proof (intro allI impI)
    fix j assume j: "j < length bands"
    then have b: "bands ! j \<in> set bands" by simp
    have g: "getitem data (bands ! j) = Inr (sub_array data (bands ! j))"
      using getitem_plane [OF assms(2)] rng [OF b] by simp
    have "column ?M (length bands + j) = (?cs @ ?gs) ! (length bands + j)"
      using colM [of "length bands + j"] j by simp
    also have "\<dots> = ?gs ! j"
      using j by (simp add: nth_append)
    finally have "column ?M (length bands + j)
                  = flat (ravel (gaussian_filter (sub_array data (bands ! j)) 2))"
      using j by (simp add: ravel_def)
    then show "\<exists>plane. getitem data (bands ! j) = Inr plane
                 \<and> column ?M (length bands + j) = flat (ravel (gaussian_filter plane 2))"
      using g by blast
  qed
  show ?thesis
    using r r0 w first last by (intro exI [of _ ?M] exI [of _ ?U]) simp
qed

theorem return_features_blurring_columns_witness:
  "wf_ndarray scenario_stack \<and> shape scenario_stack = [2, 2, 2] \<and> [0, 1] \<noteq> ([] :: int list)
   \<and> list_all (\<lambda>b. 0 \<le> b \<and> b < int 2) [0, 1]
   \<and> wf_ndarray (example_filter \<lparr>shape = [2, 2], flat = [1, 2, 3, 4]\<rparr> 2)
   \<and> shape (example_filter \<lparr>shape = [2, 2], flat = [1, 2, 3, 4]\<rparr> 2) = [2, 2]
   \<and> (\<exists>M M0. return_features example_filter scenario_stack (Some [0, 1]) True = Inr M
          \<and> return_features example_filter scenario_stack (Some [0, 1]) False = Inr M0
          \<and> shape M = [2 * 2, 2 * length [0 :: int, 1]] \<and> wf_ndarray M
          \<and> shape M0 = [2 * 2, length [0 :: int, 1]]
          \<and> (\<forall>j<length [0 :: int, 1]. column M j = column M0 j)
          \<and> (\<forall>j<length [0 :: int, 1]. \<exists>plane. getitem scenario_stack ([0, 1] ! j) = Inr plane
                 \<and> column M (length [0 :: int, 1] + j) = flat (ravel (example_filter plane 2)))
          \<and> rows_of M = [[1, 5, 101, 105], [2, 6, 102, 106], [3, 7, 103, 107], [4, 8, 104, 108]])"
proof -
  have h1: "wf_ndarray scenario_stack"
    by (simp add: wf_ndarray_def scenario_stack_def)
  have h2: "shape scenario_stack = [2, 2, 2]"
    by (simp add: scenario_stack_def)
  have h3: "[0, 1] \<noteq> ([] :: int list)"
    by simp
  have h4: "\<forall>b\<in>set [0, 1]. 0 \<le> b \<and> b < int 2"
    by simp
  have h5: "\<forall>p. wf_ndarray p \<longrightarrow> wf_ndarray (example_filter p 2) \<and> shape (example_filter p 2) = shape p"
    by (simp add: wf_ndarray_def example_filter_def)
  have e: "return_features example_filter scenario_stack (Some [0, 1]) True
           = Inr \<lparr>shape = [4, 4],
                  flat = [1, 5, 101, 105, 2, 6, 102, 106, 3, 7, 103, 107, 4, 8, 104, 108]\<rparr>"
    by code_simp
  have r: "rows_of \<lparr>shape = [4, 4],
                    flat = [1, 5, 101, 105, 2, 6, 102, 106, 3, 7, 103, 107, 4, 8, 104, 108 :: int]\<rparr>
           = [[1, 5, 101, 105], [2, 6, 102, 106], [3, 7, 103, 107], [4, 8, 104, 108]]"
    by code_simp
  show ?thesis
    using h1 h2 h3 h4 h5 e r
      return_features_blurring_columns [where gaussian_filter = example_filter, OF h1 h2 h3 h4 h5]
    by (simp add: wf_ndarray_def example_filter_def)
qed

text \<open>
  C5: omitting the band selection is the same as passing all band indices
  \<open>[0, 1, ..., N-1]\<close> in natural order, with and without blurring; \<open>N\<close> is the first
  dimension of the stack.
\<close>

theorem return_features_default_selection:
  "shape data = N # sh \<Longrightarrow>
   return_features gaussian_filter data None blurring =
   return_features gaussian_filter data (Some (map int [0..<N])) blurring"
  by (simp add: return_features_def default_bands_def len_nd_def arange_def)

theorem return_features_default_selection_witness:
  "shape scenario_stack = 2 # [2, 2] \<and>
   return_features example_filter scenario_stack None True =
   return_features example_filter scenario_stack (Some (map int [0..<2])) True"
proof -
  have h: "shape scenario_stack = 2 # [2, 2]"
    by (simp add: scenario_stack_def)
  show ?thesis
    using h return_features_default_selection [OF h, of example_filter True] by simp
qed







text \<open>
  C8: when the band selection holds an index that is at least the number of bands, the
  call raises IndexError, with and without blurring. (Every exception of \<open>data[band]\<close> is
  an IndexError, so it does not matter which band of the selection fails first.)
\<close>

theorem return_features_index_out_of_range:
  "shape data = N # sh \<Longrightarrow> b \<in> set bands \<Longrightarrow> int N \<le> b \<Longrightarrow>
   return_features gaussian_filter data (Some bands) blurring = Inl IndexError"
  by (simp add: return_features_def default_bands_def bands_1D_IndexError)

theorem return_features_index_out_of_range_witness:
  "shape scenario_stack = 2 # [2, 2] \<and> (99::int) \<in> set [99] \<and> int 2 \<le> 99 \<and>
   return_features example_filter scenario_stack (Some [99]) False = Inl IndexError"
proof -
  have h: "shape scenario_stack = 2 # [2, 2]"
    by (simp add: scenario_stack_def)
  have m: "(99::int) \<in> set [99]"
    by simp
  have l: "int 2 \<le> 99"
    by simp
  show ?thesis
    using h return_features_index_out_of_range [OF h m l, of example_filter False] by simp
qed

text \<open>
  C9: \<open>create_prediction_features\<close> returns what \<open>return_features\<close> returns without
  blurring, for a given band selection and for the omitted one, errors included.
\<close>

theorem create_prediction_features_is_return_features:
  "create_prediction_features gaussian_filter s2_data s2_bands =
   return_features gaussian_filter s2_data s2_bands False"
proof (cases "default_bands s2_data s2_bands")
  case (Inl e)
  then show ?thesis
    by (simp add: create_prediction_features_def return_features_def)
next
  case (Inr bs)
  then show ?thesis
    by (simp add: create_prediction_features_def return_features_def default_bands_def)
qed

text \<open>
  C10: a selection whose indices all lie in \<open>-N .. N-1\<close> is accepted. Where it holds the
  negative index \<open>-k\<close> (\<open>1 \<le> k \<le> N\<close>) at position \<open>j\<close>, \<open>data[-k]\<close> is the band \<open>N - k\<close>, and
  that band is feature column \<open>j\<close>; with blurring, column \<open>len(bands) + j\<close> is the smoothed
  band \<open>N - k\<close>.
\<close>

theorem return_features_negative_index:
  assumes "wf_ndarray data" and "shape data = [N, rows, cols]"
    and "\<forall>b\<in>set bands. - int N \<le> b \<and> b < int N"
    and "j < length bands" and "bands ! j = - int k" and "1 \<le> k" and "k \<le> N"
    and "blurring \<longrightarrow> (\<forall>p. wf_ndarray p \<longrightarrow>
           wf_ndarray (gaussian_filter p 2) \<and> shape (gaussian_filter p 2) = shape p)"
  shows "\<exists>M plane. return_features gaussian_filter data (Some bands) blurring = Inr M
           \<and> getitem data (int (N - k)) = Inr plane
           \<and> getitem data (- int k) = Inr plane
           \<and> column M j = flat (ravel plane)
           \<and> (blurring \<longrightarrow> column M (length bands + j) = flat (ravel (gaussian_filter plane 2)))"
proof -
  let ?cs = "map (\<lambda>b. flat (sub_array data b)) bands"
  let ?gs = "map (\<lambda>b. flat (gaussian_filter (sub_array data b) 2)) bands"
  let ?pl = "sub_array data (int (N - k))"
  have rng: "\<And>b. b \<in> set bands \<Longrightarrow> - int N \<le> b \<and> b < int N"
    using assms(3) by auto
  have ne: "bands \<noteq> []"
    using assms(4) by auto
  have neg: "sub_array data (- int k) = ?pl"
    using assms(2,6,7) by (rule sub_array_negative)
  have g1: "getitem data (int (N - k)) = Inr ?pl"
    by (rule getitem_plane [OF assms(2)]) (use assms(6,7) in auto)
  have "getitem data (- int k) = Inr (sub_array data (- int k))"
    by (rule getitem_plane [OF assms(2)]) (use assms(6,7) in auto)
  then have g2: "getitem data (- int k) = Inr ?pl"
    using neg by simp
  have bj: "sub_array data (bands ! j) = ?pl"
    using neg assms(5) by simp
  have len0: "\<And>col. col \<in> set ?cs \<Longrightarrow> length col = rows * cols"
    using length_plane [OF assms(1,2)] rng by auto
  show ?thesis
  proof (cases blurring)
    case False
    let ?M = "\<lparr>shape = [rows * cols, length bands], flat = interleave (rows * cols) ?cs\<rparr>"
    have "return_features gaussian_filter data (Some bands) False
          = Inr \<lparr>shape = [prod_list [rows, cols], length bands],
                 flat = interleave (prod_list [rows, cols]) ?cs\<rparr>"
      using assms(1,2) ne rng by (rule return_features_unblurred)
    then have r: "return_features gaussian_filter data (Some bands) blurring = Inr ?M"
      using False by simp
    have "column \<lparr>shape = [rows * cols, length ?cs], flat = interleave (rows * cols) ?cs\<rparr> j = ?cs ! j"
      by (rule column_interleave [OF len0]) (use assms(4) in auto)
    then have c: "column ?M j = flat (ravel ?pl)"
      using assms(4) bj by (simp add: ravel_def)
    show ?thesis
      using r g1 g2 c False by (intro exI [of _ ?M] exI [of _ ?pl]) simp
  next
    case True
    let ?M = "\<lparr>shape = [rows * cols, 2 * length bands],
               flat = interleave (rows * cols) (?cs @ ?gs)\<rparr>"
    have gf: "\<And>p. wf_ndarray p \<Longrightarrow>
                wf_ndarray (gaussian_filter p 2) \<and> shape (gaussian_filter p 2) = shape p"
      using assms(8) True by blast
    have "return_features gaussian_filter data (Some bands) True
          = Inr \<lparr>shape = [prod_list [rows, cols], 2 * length bands],
                 flat = interleave (prod_list [rows, cols]) (?cs @ ?gs)\<rparr>"
      using assms(1,2) ne rng gf by (rule return_features_blurred)
    then have r: "return_features gaussian_filter data (Some bands) blurring = Inr ?M"
      using True by simp
    have leng: "\<And>col. col \<in> set ?gs \<Longrightarrow> length col = rows * cols"
    proof -
      fix col assume "col \<in> set ?gs"
      then obtain b where b: "b \<in> set bands"
        and c: "col = flat (gaussian_filter (sub_array data b) 2)"
        by auto
      have wp: "wf_ndarray (sub_array data b)"
        using wf_plane [OF assms(1,2)] rng [OF b] by simp
      have "shape (gaussian_filter (sub_array data b) 2) = [rows, cols]"
        using gf [OF wp] shape_plane [OF assms(2), of b] by simp
      then show "length col = rows * cols"
        using gf [OF wp] c by (simp add: wf_ndarray_def)
    qed
    have len: "\<And>col. col \<in> set (?cs @ ?gs) \<Longrightarrow> length col = rows * cols"
      using len0 leng by (metis Un_iff set_append)
    have l2: "2 * length bands = length (?cs @ ?gs)"
      by simp
    have colM: "\<And>i. i < 2 * length bands \<Longrightarrow> column ?M i = (?cs @ ?gs) ! i"
    proof -
      fix i assume i: "i < 2 * length bands"
      have "column \<lparr>shape = [rows * cols, length (?cs @ ?gs)],
                     flat = interleave (rows * cols) (?cs @ ?gs)\<rparr> i = (?cs @ ?gs) ! i"
        by (rule column_interleave [OF len]) (use i in auto)
      then show "column ?M i = (?cs @ ?gs) ! i"
        by (simp only: l2 [symmetric])
    qed
    have "column ?M j = (?cs @ ?gs) ! j"
      using colM [of j] assms(4) by simp
    also have "\<dots> = ?cs ! j"
      using assms(4) by (simp add: nth_append)
    finally have c1: "column ?M j = flat (ravel ?pl)"
      using assms(4) bj by (simp add: ravel_def)
    have "column ?M (length bands + j) = (?cs @ ?gs) ! (length bands + j)"
      using colM [of "length bands + j"] assms(4) by simp
    also have "\<dots> = ?gs ! j"
      using assms(4) by (simp add: nth_append)
    finally have c2: "column ?M (length bands + j) = flat (ravel (gaussian_filter ?pl 2))"
      using assms(4) bj by (simp add: ravel_def)
    show ?thesis
      using r g1 g2 c1 c2 by (intro exI [of _ ?M] exI [of _ ?pl]) simp
  qed
qed

theorem return_features_negative_index_witness:
  "wf_ndarray scenario_stack \<and> shape scenario_stack = [2, 2, 2]
   \<and> list_all (\<lambda>b. - int 2 \<le> b \<and> b < int 2) [0, - 1]
   \<and> 1 < length [0 :: int, - 1] \<and> [0, - 1] ! 1 = - int 1 \<and> (1 :: nat) \<le> 1 \<and> (1 :: nat) \<le> 2
   \<and> wf_ndarray (example_filter \<lparr>shape = [2, 2], flat = [5, 6, 7, 8]\<rparr> 2)
   \<and> shape (example_filter \<lparr>shape = [2, 2], flat = [5, 6, 7, 8]\<rparr> 2) = [2, 2]
   \<and> (\<exists>M plane. return_features example_filter scenario_stack (Some [0, - 1]) True = Inr M
          \<and> getitem scenario_stack (int (2 - 1)) = Inr plane
          \<and> getitem scenario_stack (- int 1) = Inr plane
          \<and> column M 1 = flat (ravel plane)
          \<and> column M (length [0 :: int, - 1] + 1) = flat (ravel (example_filter plane 2))
          \<and> flat plane = [5, 6, 7, 8]
          \<and> rows_of M = [[1, 5, 101, 105], [2, 6, 102, 106], [3, 7, 103, 107], [4, 8, 104, 108]])"
proof -
  have h1: "wf_ndarray scenario_stack"
    by (simp add: wf_ndarray_def scenario_stack_def)
  have h2: "shape scenario_stack = [2, 2, 2]"
    by (simp add: scenario_stack_def)
  have h3: "\<forall>b\<in>set [0, - 1]. - int 2 \<le> b \<and> b < int 2"
    by simp
  have h4: "1 < length [0 :: int, - 1]"
    by simp
  have h5: "[0, - 1] ! 1 = - int 1"
    by simp
  have h6: "(1 :: nat) \<le> 1"
    by simp
  have h7: "(1 :: nat) \<le> 2"
    by simp
  have h8: "True \<longrightarrow> (\<forall>p. wf_ndarray p \<longrightarrow>
              wf_ndarray (example_filter p 2) \<and> shape (example_filter p 2) = shape p)"
    by (simp add: wf_ndarray_def example_filter_def)
  have e: "return_features example_filter scenario_stack (Some [0, - 1]) True
           = Inr \<lparr>shape = [4, 4],
                  flat = [1, 5, 101, 105, 2, 6, 102, 106, 3, 7, 103, 107, 4, 8, 104, 108]\<rparr>"
    by code_simp
  have g: "getitem scenario_stack (- int 1) = Inr \<lparr>shape = [2, 2], flat = [5, 6, 7, 8]\<rparr>"
    by code_simp
  have r: "rows_of \<lparr>shape = [4, 4],
                    flat = [1, 5, 101, 105, 2, 6, 102, 106, 3, 7, 103, 107, 4, 8, 104, 108 :: int]\<rparr>
           = [[1, 5, 101, 105], [2, 6, 102, 106], [3, 7, 103, 107], [4, 8, 104, 108]]"
    by code_simp
  show ?thesis
    using h1 h2 h3 h4 h5 h6 h7 h8 e g r
      return_features_negative_index
        [where gaussian_filter = example_filter and blurring = True, OF h1 h2 h3 h4 h5 h6 h7 h8]
    by (simp add: wf_ndarray_def example_filter_def)
qed

end
